theory Spec2Isabelle
  imports Complex_Main "HOL-Library.Word" "HOL-Library.AList"
begin

section \<open>The chat hub of server.js\<close>

text \<open>
  A shallow embedding of the Socket.IO part of \<^verbatim>\<open>server.js\<close>: the string utilities
  \<^verbatim>\<open>sanitize\<close>, \<^verbatim>\<open>validateName\<close>, \<^verbatim>\<open>validateText\<close>, the registry \<^verbatim>\<open>users\<close>,
  \<^verbatim>\<open>broadcastOnline\<close> and the four handlers registered for every socket
  (\<^verbatim>\<open>join\<close>, \<^verbatim>\<open>chat_message\<close>, \<^verbatim>\<open>typing\<close>, \<^verbatim>\<open>disconnect\<close>).
\<close>

subsection \<open>JavaScript values\<close>

text \<open>
  A JavaScript string is a sequence of UTF-16 code units; \<^verbatim>\<open>substring\<close>, \<^verbatim>\<open>\s\<close> and
  \<^verbatim>\<open>trim\<close> all work on code units. \<open>js\<close> writes an ASCII literal as code units.
\<close>

type_synonym jschar = "16 word"
type_synonym jsstring = "jschar list"

definition js :: "string \<Rightarrow> jsstring" where
  "js s = map of_char s"

text \<open>
  What a handler can receive as an argument: the values that travel in a Socket.IO packet.
  Numbers on the wire are finite; only whether a number is zero matters below.
\<close>

datatype jsval =
    JUndefined
  | JNull
  | JBool bool
  | JNum real
  | JStr jsstring
  | JArr "jsval list"
  | JObj "(jsstring \<times> jsval) list"

text \<open>\<^verbatim>\<open>!!v\<close>: \<^verbatim>\<open>undefined\<close>, \<^verbatim>\<open>null\<close>, \<^verbatim>\<open>false\<close>, \<^verbatim>\<open>0\<close> and \<^verbatim>\<open>''\<close> are falsy.\<close>

fun truthy :: "jsval \<Rightarrow> bool" where
  "truthy JUndefined = False"
| "truthy JNull = False"
| "truthy (JBool b) = b"
| "truthy (JNum x) = (x \<noteq> 0)"
| "truthy (JStr s) = (s \<noteq> [])"
| "truthy (JArr xs) = True"
| "truthy (JObj fs) = True"

text \<open>
  \<^verbatim>\<open>payload?.text\<close>: \<^verbatim>\<open>undefined\<close> for \<^verbatim>\<open>null\<close> and \<^verbatim>\<open>undefined\<close> (the optional chain),
  the field of an object when it has one, and \<^verbatim>\<open>undefined\<close> for every other value,
  none of which has a property \<^verbatim>\<open>text\<close>.
\<close>

fun opt_text :: "jsval \<Rightarrow> jsval" where
  "opt_text (JObj fs) = (case map_of fs (js ''text'') of None \<Rightarrow> JUndefined | Some v \<Rightarrow> v)"
| "opt_text v = JUndefined"

subsection \<open>sanitize, validateName, validateText\<close>

text \<open>
  The code units matched by \<^verbatim>\<open>\s\<close> in a regular expression without the \<^verbatim>\<open>u\<close> flag;
  \<^verbatim>\<open>String.prototype.trim\<close> strips the same set (WhiteSpace and LineTerminator).
\<close>

definition is_space :: "jschar \<Rightarrow> bool" where
  "is_space c \<longleftrightarrow>
     c = 0x09 \<or> c = 0x0A \<or> c = 0x0B \<or> c = 0x0C \<or> c = 0x0D \<or> c = 0x20 \<or> c = 0xA0 \<or>
     c = 0x1680 \<or> (0x2000 \<le> c \<and> c \<le> 0x200A) \<or> c = 0x2028 \<or> c = 0x2029 \<or>
     c = 0x202F \<or> c = 0x205F \<or> c = 0x3000 \<or> c = 0xFEFF"

abbreviation SP :: jschar where
  "SP \<equiv> 0x20"

text \<open>\<^verbatim>\<open>s.replace(/\s+/g, ' ')\<close>: every maximal run of whitespace becomes one space.\<close>

function collapse :: "jsstring \<Rightarrow> jsstring" where
  "collapse [] = []"
| "collapse (c # cs) =
     (if is_space c then SP # collapse (dropWhile is_space cs) else c # collapse cs)"
  by pat_completeness auto
termination
  by (relation "measure length") (auto simp: less_Suc_eq_le length_dropWhile_le)

text \<open>\<^verbatim>\<open>s.trim()\<close>.\<close>

definition trim :: "jsstring \<Rightarrow> jsstring" where
  "trim s = rev (dropWhile is_space (rev (dropWhile is_space s)))"

text \<open>
  \<^verbatim>\<open>sanitize(str, maxLen)\<close>. \<^verbatim>\<open>str.substring(0, maxLen)\<close> keeps the first \<open>maxLen\<close> code
  units (all of them when the string is shorter); the callers pass 40 and 1000.
\<close>

fun sanitize :: "jsval \<Rightarrow> nat \<Rightarrow> jsstring" where
  "sanitize (JStr s) maxLen = trim (collapse (take maxLen s))"
| "sanitize v maxLen = []"

text \<open>\<^verbatim>\<open>name || null\<close>: the empty string is falsy.\<close>

definition validateName :: "jsval \<Rightarrow> jsstring option" where
  "validateName raw = (let nm = sanitize raw 40 in if nm = [] then None else Some nm)"

definition validateText :: "jsval \<Rightarrow> jsstring option" where
  "validateText raw = (let t = sanitize raw 1000 in if t = [] then None else Some t)"

text \<open>
  The specification's \<^verbatim>\<open>normalizeText\<close>, following its words in their order: collapse
  runs of whitespace, trim, then truncate to \<open>maxLen\<close> characters; the empty string for
  anything that is not a string.
\<close>

fun normalizeText_spec :: "jsval \<Rightarrow> nat \<Rightarrow> jsstring" where
  "normalizeText_spec (JStr s) maxLen = take maxLen (trim (collapse s))"
| "normalizeText_spec v maxLen = []"

subsection \<open>The registry and what a handler does to the outside\<close>

text \<open>
  \<^verbatim>\<open>users\<close> is a \<^verbatim>\<open>Map\<close> from \<^verbatim>\<open>socket.id\<close> to \<^verbatim>\<open>{ name }\<close>. A JavaScript \<^verbatim>\<open>Map\<close>
  keeps its entries in insertion order with one entry for each key: an association list
  with \<open>AList.update\<close> for \<^verbatim>\<open>users.set\<close> (overwrite in place, or append),
  \<open>AList.delete\<close> for \<^verbatim>\<open>users.delete\<close>, \<open>map_of\<close> for \<^verbatim>\<open>users.get\<close> and \<open>length\<close> for
  \<^verbatim>\<open>users.size\<close>. The list starts empty, and both operations keep the keys distinct
  (\<open>run_distinct\<close> below), so its length is the number of keys.
\<close>

type_synonym sid = string

record user =
  name :: jsstring

type_synonym registry = "(sid \<times> user) list"

text \<open>
  The three ways of sending: \<^verbatim>\<open>io.emit\<close> (every connected socket),
  \<^verbatim>\<open>socket.broadcast.emit\<close> (every connected socket but this one) and \<^verbatim>\<open>socket.emit\<close>
  (this socket).
\<close>

datatype target = ToAll | ToOthers sid | ToOne sid

fun recipients :: "sid set \<Rightarrow> target \<Rightarrow> sid set" where
  "recipients conns ToAll = conns"
| "recipients conns (ToOthers c) = conns - {c}"
| "recipients conns (ToOne c) = conns \<inter> {c}"

text \<open>
  The texts sent with \<^verbatim>\<open>error_message\<close>, in the order of the source: the invalid name
  and the caught failure of \<^verbatim>\<open>join\<close>, then the message before a join and the caught
  failure of \<^verbatim>\<open>chat_message\<close>.
\<close>

datatype errtext = BadName | JoinFailed | NameFirst | SendFailed

datatype notice_kind = JoinKind | LeaveKind

text \<open>
  The message object. \<^verbatim>\<open>Date.now()\<close> is read twice and \<^verbatim>\<open>Math.random()\<close> once; the
  three readings come with the event. The id \<^verbatim>\<open>`${Date.now()}-${...}`\<close> is kept as the
  pair of its two parts.
\<close>

record readings =
  now_id :: nat
  rnd :: jsstring
  now_ts :: nat

record message =
  msg_id :: "nat \<times> jsstring"
  msg_author :: jsstring
  msg_text :: jsstring
  msg_ts :: nat

text \<open>
  The outbound events with their payloads. A \<^verbatim>\<open>system_message\<close> carries its type and a
  text built from the name alone, so the name stands for the text.
\<close>

datatype outevent =
    OnlineCount nat
  | SystemMessage notice_kind jsstring
  | JoinedAck jsstring
  | ChatMsg message
  | TypingEv jsstring bool sid
  | ErrorMessage errtext

datatype logline =
    LogJoined jsstring sid
  | LogJoinError
  | LogChat jsstring jsstring
  | LogChatError
  | LogDisconnected jsstring sid jsval
  | LogUnauth sid jsval

text \<open>The calls a handler makes to the outside: \<^verbatim>\<open>log\<close> and the three emits.\<close>

datatype effect = Log logline | Emit target outevent

text \<open>
  The state a handler runs in: the registry, the outside calls made so far, and a fuse.
  The source wraps two of its handlers in \<^verbatim>\<open>try\<close>/\<^verbatim>\<open>catch\<close>; to say what that does,
  an outside call may throw. The fuse says, for the outside calls still to come and in
  their order, whether each one throws; past its end no call throws. A call inside a
  \<^verbatim>\<open>catch\<close> block is an outside call like any other and may throw as well.
\<close>

record hub =
  users :: registry
  outbox :: "effect list"
  fuse :: "bool list"

text \<open>How a block of statements ends: normally, or with an exception on its way out.\<close>

datatype outcome = Returned hub | Thrown hub

fun final :: "outcome \<Rightarrow> hub" where
  "final (Returned h) = h"
| "final (Thrown h) = h"

fun call :: "effect \<Rightarrow> hub \<Rightarrow> outcome" where
  "call e h =
     (case fuse h of
        [] \<Rightarrow> Returned (h\<lparr>outbox := outbox h @ [e]\<rparr>)
      | fails # rest \<Rightarrow>
          if fails then Thrown (h\<lparr>fuse := rest\<rparr>)
          else Returned (h\<lparr>outbox := outbox h @ [e], fuse := rest\<rparr>))"

text \<open>Statements in sequence: the first exception ends the block.\<close>

fun statements :: "(hub \<Rightarrow> outcome) list \<Rightarrow> hub \<Rightarrow> outcome" where
  "statements [] h = Returned h"
| "statements (f # fs) h =
     (case f h of Returned h' \<Rightarrow> statements fs h' | Thrown h' \<Rightarrow> Thrown h')"

text \<open>\<^verbatim>\<open>try { body } catch (err) { handler }\<close>.\<close>

definition try_catch :: "(hub \<Rightarrow> outcome) \<Rightarrow> (hub \<Rightarrow> outcome) \<Rightarrow> hub \<Rightarrow> outcome" where
  "try_catch body handler h =
     (case body h of Returned h' \<Rightarrow> Returned h' | Thrown h' \<Rightarrow> handler h')"

definition users_set :: "sid \<Rightarrow> user \<Rightarrow> hub \<Rightarrow> outcome" where
  "users_set c u h = Returned (h\<lparr>users := AList.update c u (users h)\<rparr>)"

definition users_delete :: "sid \<Rightarrow> hub \<Rightarrow> outcome" where
  "users_delete c h = Returned (h\<lparr>users := AList.delete c (users h)\<rparr>)"

text \<open>\<^verbatim>\<open>io.emit('online_count', { count: users.size })\<close>.\<close>

definition broadcastOnline :: "hub \<Rightarrow> outcome" where
  "broadcastOnline h = call (Emit ToAll (OnlineCount (length (users h)))) h"

subsection \<open>The handlers\<close>

text \<open>The \<^verbatim>\<open>try\<close> block of \<^verbatim>\<open>socket.on('join', ...)\<close>, then the whole handler.\<close>

definition join_body :: "sid \<Rightarrow> jsval \<Rightarrow> hub \<Rightarrow> outcome" where
  "join_body c rawName h =
     (case validateName rawName of
        None \<Rightarrow> call (Emit (ToOne c) (ErrorMessage BadName)) h
      | Some nm \<Rightarrow>
          statements
            [users_set c \<lparr>name = nm\<rparr>,
             call (Log (LogJoined nm c)),
             call (Emit (ToOthers c) (SystemMessage JoinKind nm)),
             call (Emit (ToOne c) (JoinedAck nm)),
             broadcastOnline] h)"

definition on_join :: "sid \<Rightarrow> jsval \<Rightarrow> hub \<Rightarrow> outcome" where
  "on_join c rawName =
     try_catch (join_body c rawName)
       (statements [call (Log LogJoinError), call (Emit (ToOne c) (ErrorMessage JoinFailed))])"

text \<open>\<^verbatim>\<open>socket.on('chat_message', ...)\<close>.\<close>

definition chat_body :: "sid \<Rightarrow> jsval \<Rightarrow> readings \<Rightarrow> hub \<Rightarrow> outcome" where
  "chat_body c payload r h =
     (case map_of (users h) c of
        None \<Rightarrow> call (Emit (ToOne c) (ErrorMessage NameFirst)) h
      | Some u \<Rightarrow>
          (case validateText (opt_text payload) of
             None \<Rightarrow> Returned h
           | Some t \<Rightarrow>
               statements
                 [call (Log (LogChat (name u) t)),
                  call (Emit ToAll (ChatMsg
                    \<lparr>msg_id = (now_id r, rnd r), msg_author = name u, msg_text = t,
                     msg_ts = now_ts r\<rparr>))] h))"

definition on_chat_message :: "sid \<Rightarrow> jsval \<Rightarrow> readings \<Rightarrow> hub \<Rightarrow> outcome" where
  "on_chat_message c payload r =
     try_catch (chat_body c payload r)
       (statements [call (Log LogChatError), call (Emit (ToOne c) (ErrorMessage SendFailed))])"

text \<open>\<^verbatim>\<open>socket.on('typing', ...)\<close>: no \<^verbatim>\<open>try\<close> here.\<close>

definition on_typing :: "sid \<Rightarrow> jsval \<Rightarrow> hub \<Rightarrow> outcome" where
  "on_typing c isTyping h =
     (case map_of (users h) c of
        None \<Rightarrow> Returned h
      | Some u \<Rightarrow> call (Emit ToAll (TypingEv (name u) (truthy isTyping) c)) h)"

text \<open>
  \<^verbatim>\<open>socket.on('disconnect', ...)\<close>: no \<^verbatim>\<open>try\<close> either. The entry is read, then deleted,
  and \<^verbatim>\<open>user?.name\<close> chooses the branch: an absent entry and an empty name are both falsy.
\<close>

definition on_disconnect :: "sid \<Rightarrow> jsval \<Rightarrow> hub \<Rightarrow> outcome" where
  "on_disconnect c reason h =
     (let user = map_of (users h) c in
      statements
        [users_delete c,
         (case user of
            Some u \<Rightarrow>
              if name u \<noteq> [] then
                statements
                  [call (Log (LogDisconnected (name u) c reason)),
                   call (Emit (ToOthers c) (SystemMessage LeaveKind (name u))),
                   broadcastOnline]
              else call (Log (LogUnauth c reason))
          | None \<Rightarrow> call (Log (LogUnauth c reason)))] h)"

subsection \<open>Events in sequence\<close>

datatype event =
    Join jsval
  | ChatMessage jsval readings
  | Typing jsval
  | Disconnect jsval

text \<open>
  One inbound event: the socket it arrives on, the event, and which of the outside calls
  of its handler throw (the empty list: none).
\<close>

record inbound =
  sender :: sid
  event :: event
  fault :: "bool list"

fun handler :: "sid \<Rightarrow> event \<Rightarrow> hub \<Rightarrow> outcome" where
  "handler c (Join rawName) = on_join c rawName"
| "handler c (ChatMessage payload r) = on_chat_message c payload r"
| "handler c (Typing isTyping) = on_typing c isTyping"
| "handler c (Disconnect reason) = on_disconnect c reason"

text \<open>
  One event handled on a registry: the handler starts with nothing sent yet and with the
  fuse the event carries.
\<close>

definition dispatch :: "inbound \<Rightarrow> registry \<Rightarrow> outcome" where
  "dispatch i us = handler (sender i) (event i) \<lparr>users = us, outbox = [], fuse = fault i\<rparr>"

text \<open>
  The registry after a sequence of events. The registry is a global of the process, so it
  is kept as a handler leaves it, also by one that throws.
\<close>

fun run :: "registry \<Rightarrow> inbound list \<Rightarrow> registry" where
  "run us [] = us"
| "run us (i # is) = run (users (final (dispatch i us))) is"

text \<open>The emits among the outside calls, without the log lines.\<close>

fun emits :: "effect list \<Rightarrow> (target \<times> outevent) list" where
  "emits [] = []"
| "emits (Log l # es) = emits es"
| "emits (Emit t e # es) = (t, e) # emits es"

text \<open>Everything sent while a sequence of events is handled, in order.\<close>

fun transcript :: "registry \<Rightarrow> inbound list \<Rightarrow> effect list" where
  "transcript us [] = []"
| "transcript us (i # is) =
     (let h = final (dispatch i us) in outbox h @ transcript (users h) is)"

subsection \<open>Predicates used to state the properties\<close>

text \<open>The payload is an object whose field \<^verbatim>\<open>text\<close> is a string.\<close>

fun has_string_text :: "jsval \<Rightarrow> bool" where
  "has_string_text (JObj fs) =
     (case map_of fs (js ''text'') of Some (JStr s) \<Rightarrow> True | _ \<Rightarrow> False)"
| "has_string_text v = False"

text \<open>The event is a join on socket \<open>c\<close> whose raw name validates to \<open>nm\<close>.\<close>

definition joins_as :: "inbound \<Rightarrow> sid \<Rightarrow> jsstring \<Rightarrow> bool" where
  "joins_as j c nm \<longleftrightarrow>
     sender j = c \<and> (case event j of Join raw \<Rightarrow> validateName raw = Some nm | _ \<Rightarrow> False)"

text \<open>
  The connections in the Joined state after a sequence of events, told from the events
  alone as the specification's state machine has it: a connection enters the state with a
  join whose name validates, leaves it with its disconnect, and no other event moves it.
\<close>

fun joined_step :: "sid set \<Rightarrow> inbound \<Rightarrow> sid set" where
  "joined_step S i =
     (case event i of
        Join raw \<Rightarrow> (if validateName raw = None then S else insert (sender i) S)
      | Disconnect reason \<Rightarrow> S - {sender i}
      | _ \<Rightarrow> S)"

definition joined :: "inbound list \<Rightarrow> sid set" where
  "joined es = foldl joined_step {} es"

text \<open>
  No run of whitespace is left: every whitespace character is a space, and what follows
  it is not whitespace.
\<close>

fun spaced :: "jsstring \<Rightarrow> bool" where
  "spaced [] = True"
| "spaced (c # cs) =
     ((is_space c \<longrightarrow> c = SP \<and> (cs = [] \<or> \<not> is_space (hd cs))) \<and> spaced cs)"

section \<open>Properties of the string utilities\<close>

lemma is_space_SP: "is_space SP"
  by (simp add: is_space_def)

lemma length_collapse: "length (collapse s) \<le> length s"
proof (induction s rule: collapse.induct)
  case 1
  show ?case by simp
next
  case (2 c cs)
  show ?case
  proof (cases "is_space c")
    case True
    with 2 have "length (collapse (dropWhile is_space cs)) \<le> length (dropWhile is_space cs)"
      by simp
    also have "\<dots> \<le> length cs" by (rule length_dropWhile_le)
    finally show ?thesis using True by simp
  next
    case False
    with 2 show ?thesis by simp
  qed
qed

lemma length_trim: "length (trim s) \<le> length s"
proof -
  have "length (trim s) \<le> length (dropWhile is_space s)"
    unfolding trim_def using length_dropWhile_le [of is_space "rev (dropWhile is_space s)"]
    by simp
  also have "\<dots> \<le> length s" by (rule length_dropWhile_le)
  finally show ?thesis .
qed

lemma length_sanitize: "length (sanitize raw n) \<le> n"
proof (cases raw)
  case (JStr s)
  have "length (trim (collapse (take n s))) \<le> length (take n s)"
    using length_trim [of "collapse (take n s)"] length_collapse [of "take n s"] by linarith
  then show ?thesis using JStr by simp
qed simp_all

lemma spaced_collapse: "spaced (collapse s)"
proof (induction s rule: collapse.induct)
  case 1
  show ?case by simp
next
  case (2 c cs)
  show ?case
  proof (cases "is_space c")
    case True
    let ?d = "dropWhile is_space cs"
    have "collapse ?d = [] \<or> \<not> is_space (hd (collapse ?d))"
    proof (cases ?d)
      case Nil
      show ?thesis unfolding Nil by simp
    next
      case (Cons x xs)
      then have "\<not> is_space x" by (simp add: dropWhile_eq_Cons_conv)
      then show ?thesis unfolding Cons by simp
    qed
    with 2 True show ?thesis by simp
  next
    case False
    with 2 show ?thesis by simp
  qed
qed

lemma spaced_suffix: "spaced (xs @ ys) \<Longrightarrow> spaced ys"
  by (induction xs) simp_all

lemma spaced_prefix: "spaced (xs @ ys) \<Longrightarrow> spaced xs"
proof (induction xs)
  case Nil
  show ?case by simp
next
  case (Cons x xs)
  then show ?case by (cases xs) auto
qed

lemma spaced_dropWhile: "spaced s \<Longrightarrow> spaced (dropWhile P s)"
  using spaced_suffix [of "takeWhile P s" "dropWhile P s"] by simp

text \<open>What \<open>trim\<close> returns is the front of the string left after the leading whitespace.\<close>

lemma trim_front:
  "dropWhile P s =
     rev (dropWhile P (rev (dropWhile P s))) @ rev (takeWhile P (rev (dropWhile P s)))"
proof -
  have "rev (dropWhile P r) @ rev (takeWhile P r) = rev r" for r :: "'a list"
    by (simp only: rev_append [symmetric] takeWhile_dropWhile_id)
  from this [of "rev (dropWhile P s)"] show ?thesis by (simp only: rev_rev_ident)
qed

lemma spaced_trim: "spaced s \<Longrightarrow> spaced (trim s)"
proof -
  assume "spaced s"
  then have "spaced (dropWhile is_space s)" by (rule spaced_dropWhile)
  then have "spaced (trim s @ rev (takeWhile is_space (rev (dropWhile is_space s))))"
    unfolding trim_def using trim_front [of is_space s] by simp
  then show ?thesis by (rule spaced_prefix)
qed

lemma last_dropWhile:
  "ys \<noteq> [] \<Longrightarrow> \<not> P (last ys) \<Longrightarrow> dropWhile P ys \<noteq> [] \<and> last (dropWhile P ys) = last ys"
  by (induction ys) (auto split: if_splits)

lemma trim_ends: "trim s = [] \<or> (\<not> is_space (hd (trim s)) \<and> \<not> is_space (last (trim s)))"
proof (cases "dropWhile is_space s = []")
  case True
  show ?thesis unfolding trim_def True by simp
next
  case False
  let ?d = "dropWhile is_space s"
  from False have h: "\<not> is_space (hd ?d)" by (rule hd_dropWhile)
  have r: "rev ?d \<noteq> []" "\<not> is_space (last (rev ?d))" using False h by (simp_all add: last_rev)
  from last_dropWhile [of "rev ?d" is_space, OF r] have ne: "dropWhile is_space (rev ?d) \<noteq> []"
    and l: "last (dropWhile is_space (rev ?d)) = hd ?d" using False by (simp_all add: last_rev)
  from ne have "\<not> is_space (hd (dropWhile is_space (rev ?d)))" by (rule hd_dropWhile)
  with ne l h show ?thesis by (simp add: trim_def hd_rev last_rev)
qed

lemma filter_dropWhile: "filter (\<lambda>x. \<not> P x) (dropWhile P xs) = filter (\<lambda>x. \<not> P x) xs"
  by (induction xs) simp_all

lemma filter_collapse:
  "filter (\<lambda>x. \<not> is_space x) (collapse s) = filter (\<lambda>x. \<not> is_space x) s"
  by (induction s rule: collapse.induct) (simp_all add: is_space_SP filter_dropWhile)

lemma filter_trim: "filter (\<lambda>x. \<not> is_space x) (trim s) = filter (\<lambda>x. \<not> is_space x) s"
proof -
  have "filter (\<lambda>x. \<not> is_space x) (trim s) =
      rev (filter (\<lambda>x. \<not> is_space x) (dropWhile is_space (rev (dropWhile is_space s))))"
    by (simp add: trim_def rev_filter)
  also have "\<dots> = rev (filter (\<lambda>x. \<not> is_space x) (rev (dropWhile is_space s)))"
    by (simp only: filter_dropWhile)
  also have "\<dots> = filter (\<lambda>x. \<not> is_space x) (dropWhile is_space s)"
    by (simp add: rev_filter)
  finally show ?thesis by (simp only: filter_dropWhile)
qed

lemma collapse_all_space: "\<forall>x\<in>set s. is_space x \<Longrightarrow> trim (collapse s) = []"
proof (cases s)
  case Nil
  then show ?thesis by (simp add: trim_def)
next
  case (Cons c cs)
  assume all: "\<forall>x\<in>set s. is_space x"
  with Cons have d: "dropWhile is_space cs = []" and c: "is_space c" by simp_all
  have "collapse s = [SP]" unfolding Cons by (simp add: d c)
  then show ?thesis by (simp add: trim_def is_space_SP)
qed

lemma sanitize_all_space: "\<forall>x\<in>set s. is_space x \<Longrightarrow> sanitize (JStr s) n = []"
  by (rule trans [OF sanitize.simps(1)], rule collapse_all_space) (auto dest: in_set_takeD)

lemma sanitize_no_string: "\<not> has_string_text p \<Longrightarrow> sanitize (opt_text p) n = []"
  by (cases p) (auto split: option.splits jsval.splits)

text \<open>
  C6, as the source has it. \<open>sanitize\<close> returns the empty string for anything that is not
  a string. For a string it cuts the raw input to its first \<open>maxLen\<close> characters first and
  then collapses the runs of whitespace and trims: the result is the specification's
  normalisation of the cut input, and of the input itself when that has at most \<open>maxLen\<close>
  characters. The result has at most \<open>maxLen\<close> characters, keeps the characters that are
  not whitespace in their order, has no run of whitespace left and neither starts nor
  ends with whitespace. \<open>validateName\<close> is this with \<open>maxLen = 40\<close>, and null exactly
  when the result is empty.
\<close>

theorem sanitize_truncates_first:
  "(case raw of
      JStr s \<Rightarrow>
        sanitize raw maxLen = normalizeText_spec (JStr (take maxLen s)) maxLen
        \<and> (length s \<le> maxLen \<longrightarrow> sanitize raw maxLen = normalizeText_spec raw maxLen)
        \<and> filter (\<lambda>x. \<not> is_space x) (sanitize raw maxLen)
            = filter (\<lambda>x. \<not> is_space x) (take maxLen s)
    | _ \<Rightarrow> sanitize raw maxLen = [])
   \<and> length (sanitize raw maxLen) \<le> maxLen
   \<and> spaced (sanitize raw maxLen)
   \<and> (sanitize raw maxLen = [] \<or>
        (\<not> is_space (hd (sanitize raw maxLen)) \<and> \<not> is_space (last (sanitize raw maxLen))))
   \<and> validateName raw = (if sanitize raw 40 = [] then None else Some (sanitize raw 40))"
proof -
  have t: "take maxLen (trim (collapse t)) = trim (collapse t)" if "length t \<le> maxLen" for t
    using that length_trim [of "collapse t"] length_collapse [of t] by simp
  have a: "sanitize (JStr s) maxLen = normalizeText_spec (JStr (take maxLen s)) maxLen" for s
    by (simp add: t)
  have b: "sanitize (JStr s) maxLen = normalizeText_spec (JStr s) maxLen"
    if "length s \<le> maxLen" for s
    using that by (simp add: t)
  have c: "filter (\<lambda>x. \<not> is_space x) (sanitize (JStr s) maxLen)
      = filter (\<lambda>x. \<not> is_space x) (take maxLen s)" for s
    by (simp add: filter_trim filter_collapse)
  have d: "spaced (sanitize raw maxLen)"
    by (cases raw) (simp_all add: spaced_trim spaced_collapse)
  have e: "sanitize raw maxLen = [] \<or>
        (\<not> is_space (hd (sanitize raw maxLen)) \<and> \<not> is_space (last (sanitize raw maxLen)))"
    by (cases raw) (simp_all add: trim_ends)
  have f: "validateName raw = (if sanitize raw 40 = [] then None else Some (sanitize raw 40))"
    by (simp add: validateName_def Let_def)
  have g: "(case raw of
      JStr s \<Rightarrow>
        sanitize raw maxLen = normalizeText_spec (JStr (take maxLen s)) maxLen
        \<and> (length s \<le> maxLen \<longrightarrow> sanitize raw maxLen = normalizeText_spec raw maxLen)
        \<and> filter (\<lambda>x. \<not> is_space x) (sanitize raw maxLen)
            = filter (\<lambda>x. \<not> is_space x) (take maxLen s)
    | _ \<Rightarrow> sanitize raw maxLen = [])"
    using a b c by (cases raw) (simp_all del: sanitize.simps normalizeText_spec.simps, simp_all)
  from g length_sanitize d e f show ?thesis by blast
qed

theorem sanitize_truncates_first_witness:
  "length (js ''  Ann   Lee '') \<le> 40
   \<and> sanitize (JStr (js ''  Ann   Lee '')) 40 = js ''Ann Lee''
   \<and> normalizeText_spec (JStr (js ''  Ann   Lee '')) 40 = js ''Ann Lee''
   \<and> validateName (JStr (js ''  Ann   Lee '')) = Some (js ''Ann Lee'')
   \<and> is_space (js ''Ann Lee'' ! 3)
   \<and> spaced (js ''Ann Lee'')"
proof -
  have l: "length (js ''  Ann   Lee '') \<le> 40"
    by (simp add: js_def)
  have v: "sanitize (JStr (js ''  Ann   Lee '')) 40 = js ''Ann Lee''"
    by code_simp
  have n: "js ''Ann Lee'' \<noteq> []"
    by (simp add: js_def)
  have i: "is_space (js ''Ann Lee'' ! 3)"
    by (simp add: js_def is_space_def)
  from sanitize_truncates_first [of "JStr (js ''  Ann   Lee '')" 40] l v n i show ?thesis
    by simp
qed

text \<open>
  C6, as the specification words it (collapse, trim, then cut), fails on the name made of
  \<^verbatim>\<open>a\<close>, forty spaces and \<^verbatim>\<open>b\<close>: the source cuts first and returns \<^verbatim>\<open>a\<close>, the
  specification's order gives \<^verbatim>\<open>a b\<close>.
\<close>

theorem normalizeText_order_counterexample:
  "sanitize (JStr (js ''a'' @ replicate 40 SP @ js ''b'')) 40 = js ''a''
   \<and> normalizeText_spec (JStr (js ''a'' @ replicate 40 SP @ js ''b'')) 40 = js ''a b''
   \<and> validateName (JStr (js ''a'' @ replicate 40 SP @ js ''b'')) = Some (js ''a'')
   \<and> sanitize (JStr (js ''a'' @ replicate 40 SP @ js ''b'')) 40
       \<noteq> normalizeText_spec (JStr (js ''a'' @ replicate 40 SP @ js ''b'')) 40"
proof -
  have a: "sanitize (JStr (js ''a'' @ replicate 40 SP @ js ''b'')) 40 = js ''a''"
    by code_simp
  have b: "normalizeText_spec (JStr (js ''a'' @ replicate 40 SP @ js ''b'')) 40 = js ''a b''"
    by code_simp
  have c: "js ''a'' \<noteq> js ''a b''"
    by (simp add: js_def)
  have d: "js ''a'' \<noteq> []"
    by (simp add: js_def)
  from a b c d show ?thesis
    by (simp add: validateName_def)
qed

section \<open>Properties of the handlers\<close>

lemmas handler_defs =
  dispatch_def on_join_def join_body_def on_chat_message_def chat_body_def on_typing_def
  on_disconnect_def try_catch_def users_set_def users_delete_def broadcastOnline_def

lemma users_dispatch:
  "users (final (dispatch i us)) =
     (case event i of
        Join raw \<Rightarrow>
          (case validateName raw of
             None \<Rightarrow> us
           | Some nm \<Rightarrow> AList.update (sender i) \<lparr>name = nm\<rparr> us)
      | Disconnect r \<Rightarrow> AList.delete (sender i) us
      | _ \<Rightarrow> us)"
  by (cases "event i")
     (auto simp: handler_defs split: option.splits list.splits)

lemma count_dispatch:
  "Emit t (OnlineCount n) \<in> set (outbox (final (dispatch i us))) \<Longrightarrow>
     t = ToAll \<and> n = length (users (final (dispatch i us)))"
  by (cases "event i")
     (auto simp: handler_defs split: option.splits list.splits if_splits)

lemma error_dispatch:
  "Emit t (ErrorMessage e) \<in> set (outbox (final (dispatch i us))) \<Longrightarrow> t = ToOne (sender i)"
  by (cases "event i")
     (auto simp: handler_defs split: option.splits list.splits if_splits)

lemma set_update: "set (AList.update k v al) \<subseteq> insert (k, v) (set al)"
  by (induction al) auto

lemma set_delete: "set (AList.delete k al) \<subseteq> set al"
  by (auto simp: AList.delete_eq)

lemma validateName_nonempty: "validateName raw = Some nm \<Longrightarrow> nm \<noteq> []"
  by (auto simp: validateName_def Let_def split: if_splits)

lemma joins_as_nonempty: "joins_as j c nm \<Longrightarrow> nm \<noteq> []"
  by (auto simp: joins_as_def split: event.splits dest: validateName_nonempty)

lemma dispatch_entries:
  assumes "(c, u) \<in> set (users (final (dispatch i us)))"
  shows "(c, u) \<in> set us \<or> joins_as i c (name u)"
proof (cases "event i")
  case (Join raw)
  show ?thesis
  proof (cases "validateName raw")
    case None
    with Join assms show ?thesis by (simp add: users_dispatch)
  next
    case (Some nm)
    with Join assms have "(c, u) \<in> set (AList.update (sender i) \<lparr>name = nm\<rparr> us)"
      by (simp add: users_dispatch)
    with set_update have "(c, u) = (sender i, \<lparr>name = nm\<rparr>) \<or> (c, u) \<in> set us"
      by fastforce
    with Join Some show ?thesis by (auto simp: joins_as_def)
  qed
next
  case (Disconnect r)
  with assms set_delete [of "sender i" us] show ?thesis by (auto simp: users_dispatch)
qed (use assms in \<open>simp_all add: users_dispatch\<close>)

lemma run_entries:
  "(c, u) \<in> set (run us es) \<Longrightarrow> (c, u) \<in> set us \<or> (\<exists>j\<in>set es. joins_as j c (name u))"
proof (induction es arbitrary: us)
  case Nil
  then show ?case by simp
next
  case (Cons i es)
  from Cons.prems have "(c, u) \<in> set (run (users (final (dispatch i us))) es)" by simp
  from Cons.IH [OF this] dispatch_entries [of c u i us] show ?case by auto
qed

lemma dispatch_distinct:
  "distinct (map fst us) \<Longrightarrow> distinct (map fst (users (final (dispatch i us))))"
  by (simp add: users_dispatch AList.distinct_update AList.distinct_delete
      split: event.splits option.splits)

lemma run_distinct: "distinct (map fst us) \<Longrightarrow> distinct (map fst (run us es))"
  by (induction es arbitrary: us) (simp_all add: dispatch_distinct)

lemma length_card: "distinct (map fst us) \<Longrightarrow> length us = card (fst ` set us)"
  using distinct_card [of "map fst us"] by simp

lemma run_snoc: "run us (es @ [i]) = users (final (dispatch i (run us es)))"
  by (induction es arbitrary: us) simp_all

lemma keys_dispatch: "fst ` set (users (final (dispatch i us))) = joined_step (fst ` set us) i"
proof -
  have "fst ` set (AList.delete k al) = fst ` set al - {k}" for k :: sid and al :: registry
    using AList.delete_keys [of k al] set_removeAll [of k "map fst al"]
    by (metis set_map)
  then show ?thesis
    by (auto simp: users_dispatch AList.dom_update split: event.splits option.splits)
qed

lemma keys_run: "fst ` set (run us es) = foldl joined_step (fst ` set us) es"
  by (induction es arbitrary: us) (simp_all add: keys_dispatch del: joined_step.simps)

lemma length_delete:
  assumes "distinct (map fst us)" and "map_of us c = Some u"
  shows "length (AList.delete c us) = length us - 1"
proof -
  from assms(2) have "c \<in> set (map fst us)"
    by (metis map_of_SomeD image_eqI fst_conv set_map)
  have "length (AList.delete c us) = length (map fst (AList.delete c us))" by simp
  also have "\<dots> = length (removeAll c (map fst us))" by (simp only: AList.delete_keys)
  also have "\<dots> = length (remove1 c (map fst us))"
    using assms(1) by (simp add: distinct_remove1_removeAll)
  also have "\<dots> = length us - 1"
    using \<open>c \<in> set (map fst us)\<close> by (simp add: length_remove1)
  finally show ?thesis .
qed

text \<open>Sample inputs of the examples below: two valid names, as \<open>validateName\<close> sees them.\<close>

lemma validateName_Ann: "validateName (JStr (js ''Ann'')) = Some (js ''Ann'')"
  by code_simp

lemma Ann_nonempty: "js ''Ann'' \<noteq> []"
  by (simp add: js_def)

lemma validateName_Bob: "validateName (JStr (js ''Bob'')) = Some (js ''Bob'')"
  by code_simp

text \<open>
  C1. After any sequence of events, with or without failing outside calls: an
  \<^verbatim>\<open>online_count\<close> sent by the next handler goes to all sockets and carries the number of
  connections in the Joined state once that event is handled, which is the number of
  sockets in the registry as the handler leaves it. The sockets in the registry are at
  every point those in the Joined state: in after a valid join, out after a disconnect.
  The registry holds each socket at most once, and every socket in it has a non-empty
  name, the validated name of a join that socket sent earlier in the sequence.
\<close>

theorem online_count_is_registry_size:
  "(Emit t (OnlineCount n) \<in> set (outbox (final (dispatch i (run [] es)))) \<longrightarrow>
      t = ToAll \<and> n = card (joined (es @ [i]))
      \<and> n = card (fst ` set (run [] (es @ [i]))))
   \<and> fst ` set (run [] es) = joined es
   \<and> distinct (map fst (run [] es))
   \<and> length (run [] es) = card (joined es)
   \<and> ((c, u) \<in> set (run [] es) \<longrightarrow> name u \<noteq> [] \<and> (\<exists>j\<in>set es. joins_as j c (name u)))"
proof -
  have d: "distinct (map fst (run [] es'))" for es'
    by (rule run_distinct) simp
  have k: "fst ` set (run [] es') = joined es'" for es'
    using keys_run [of "[]" es'] by (simp add: joined_def)
  have "n = card (fst ` set (run [] (es @ [i])))"
    if "Emit t (OnlineCount n) \<in> set (outbox (final (dispatch i (run [] es))))"
    using count_dispatch [OF that] length_card [OF d [of "es @ [i]"]] by (simp add: run_snoc)
  moreover have "\<exists>j\<in>set es. joins_as j c (name u)" if "(c, u) \<in> set (run [] es)"
    using run_entries [OF that] by simp
  moreover have "length (run [] es) = card (joined es)"
    using length_card [OF d [of es]] by (simp only: k)
  ultimately show ?thesis
    using count_dispatch [of t n i "run [] es"] d [of es] k [of es] k [of "es @ [i]"]
    by (auto dest: joins_as_nonempty)
qed

theorem online_count_is_registry_size_witness:
  "Emit ToAll (OnlineCount 2) \<in> set (outbox (final
      (dispatch \<lparr>sender = ''B'', event = Join (JStr (js ''Bob'')), fault = []\<rparr>
        (run [] [\<lparr>sender = ''A'', event = Join (JStr (js ''Ann'')), fault = []\<rparr>,
                 \<lparr>sender = ''C'', event = Join (JStr (js ''Ann'')), fault = []\<rparr>,
                 \<lparr>sender = ''A'', event = Disconnect JNull, fault = []\<rparr>]))))
   \<and> joined ([\<lparr>sender = ''A'', event = Join (JStr (js ''Ann'')), fault = []\<rparr>,
               \<lparr>sender = ''C'', event = Join (JStr (js ''Ann'')), fault = []\<rparr>,
               \<lparr>sender = ''A'', event = Disconnect JNull, fault = []\<rparr>]
              @ [\<lparr>sender = ''B'', event = Join (JStr (js ''Bob'')), fault = []\<rparr>])
       = {''C'', ''B''}
   \<and> card {''C'', ''B''} = 2
   \<and> (''C'', \<lparr>name = js ''Ann''\<rparr>)
        \<in> set (run [] [\<lparr>sender = ''A'', event = Join (JStr (js ''Ann'')), fault = []\<rparr>,
                        \<lparr>sender = ''C'', event = Join (JStr (js ''Ann'')), fault = []\<rparr>,
                        \<lparr>sender = ''A'', event = Disconnect JNull, fault = []\<rparr>])
   \<and> joins_as \<lparr>sender = ''C'', event = Join (JStr (js ''Ann'')), fault = []\<rparr> ''C'' (js ''Ann'')"
proof -
  have r: "run [] [\<lparr>sender = ''A'', event = Join (JStr (js ''Ann'')), fault = []\<rparr>,
                   \<lparr>sender = ''C'', event = Join (JStr (js ''Ann'')), fault = []\<rparr>,
                   \<lparr>sender = ''A'', event = Disconnect JNull, fault = []\<rparr>]
      = [(''C'', \<lparr>name = js ''Ann''\<rparr>)]"
    by (simp add: handler_defs validateName_Ann Ann_nonempty)
  have e: "Emit ToAll (OnlineCount 2) \<in> set (outbox (final
      (dispatch \<lparr>sender = ''B'', event = Join (JStr (js ''Bob'')), fault = []\<rparr>
        (run [] [\<lparr>sender = ''A'', event = Join (JStr (js ''Ann'')), fault = []\<rparr>,
                 \<lparr>sender = ''C'', event = Join (JStr (js ''Ann'')), fault = []\<rparr>,
                 \<lparr>sender = ''A'', event = Disconnect JNull, fault = []\<rparr>]))))"
    unfolding r by (simp add: handler_defs validateName_Bob)
  have g: "joined ([\<lparr>sender = ''A'', event = Join (JStr (js ''Ann'')), fault = []\<rparr>,
               \<lparr>sender = ''C'', event = Join (JStr (js ''Ann'')), fault = []\<rparr>,
               \<lparr>sender = ''A'', event = Disconnect JNull, fault = []\<rparr>]
              @ [\<lparr>sender = ''B'', event = Join (JStr (js ''Bob'')), fault = []\<rparr>])
       = {''C'', ''B''}"
    by (auto simp: joined_def validateName_Ann validateName_Bob)
  have j: "joins_as \<lparr>sender = ''C'', event = Join (JStr (js ''Ann'')), fault = []\<rparr>
      ''C'' (js ''Ann'')"
    by (simp add: joins_as_def validateName_Ann)
  from online_count_is_registry_size [of ToAll 2
      "\<lparr>sender = ''B'', event = Join (JStr (js ''Bob'')), fault = []\<rparr>"
      "[\<lparr>sender = ''A'', event = Join (JStr (js ''Ann'')), fault = []\<rparr>,
        \<lparr>sender = ''C'', event = Join (JStr (js ''Ann'')), fault = []\<rparr>,
        \<lparr>sender = ''A'', event = Disconnect JNull, fault = []\<rparr>]"
      "''C''" "\<lparr>name = js ''Ann''\<rparr>"] e g j
  show ?thesis unfolding r by simp
qed

text \<open>
  C2. A join whose raw name passes validation, when no outside call fails: the handler
  stores the socket under its id with the normalised name, sends the join notice to all
  sockets but the sender, the \<^verbatim>\<open>joined\<close> acknowledgment with the normalised name to the
  sender alone, and then the \<^verbatim>\<open>online_count\<close> with the new size of the registry to all,
  in this order and nothing else (but its log line).
\<close>

theorem join_sequence:
  assumes "validateName raw = Some nm"
  shows "dispatch \<lparr>sender = c, event = Join raw, fault = []\<rparr> us
           = Returned \<lparr>users = AList.update c \<lparr>name = nm\<rparr> us,
                       outbox = [Log (LogJoined nm c),
                                 Emit (ToOthers c) (SystemMessage JoinKind nm),
                                 Emit (ToOne c) (JoinedAck nm),
                                 Emit ToAll (OnlineCount (length (AList.update c \<lparr>name = nm\<rparr> us)))],
                       fuse = []\<rparr>
       \<and> map_of (AList.update c \<lparr>name = nm\<rparr> us) c = Some \<lparr>name = nm\<rparr>
       \<and> nm = sanitize raw 40 \<and> nm \<noteq> []
       \<and> recipients conns (ToOthers c) = conns - {c}
       \<and> recipients conns (ToOne c) \<subseteq> {c}
       \<and> recipients conns ToAll = conns"
  using assms by (auto simp: handler_defs validateName_def Let_def AList.update_conv' split: if_splits)

theorem join_sequence_witness:
  "validateName (JStr (js ''Ann'')) = Some (js ''Ann'')
   \<and> dispatch \<lparr>sender = ''A'', event = Join (JStr (js ''Ann'')), fault = []\<rparr> []
       = Returned \<lparr>users = [(''A'', \<lparr>name = js ''Ann''\<rparr>)],
           outbox = [Log (LogJoined (js ''Ann'') ''A''),
                     Emit (ToOthers ''A'') (SystemMessage JoinKind (js ''Ann'')),
                     Emit (ToOne ''A'') (JoinedAck (js ''Ann'')),
                     Emit ToAll (OnlineCount 1)],
           fuse = []\<rparr>"
  using join_sequence [OF validateName_Ann, of "''A''" "[]"] validateName_Ann by simp

text \<open>
  C3. In a registry reached by any sequence of events: the disconnect of a socket that has
  an entry, when no outside call fails, removes the entry and sends one leave notice to
  all other sockets and then one \<^verbatim>\<open>online_count\<close> with the new size, one less than
  before, to all; the disconnect of a socket without an entry leaves the registry as it
  was and emits nothing.
\<close>

theorem disconnect_notices:
  "(map_of (run [] es) c = Some u \<longrightarrow>
      dispatch \<lparr>sender = c, event = Disconnect reason, fault = []\<rparr> (run [] es)
        = Returned \<lparr>users = AList.delete c (run [] es),
            outbox = [Log (LogDisconnected (name u) c reason),
                      Emit (ToOthers c) (SystemMessage LeaveKind (name u)),
                      Emit ToAll (OnlineCount (length (AList.delete c (run [] es))))],
            fuse = []\<rparr>
      \<and> map_of (AList.delete c (run [] es)) c = None
      \<and> length (AList.delete c (run [] es)) = length (run [] es) - 1)
   \<and> (map_of (run [] es) c = None \<longrightarrow>
        users (final (dispatch \<lparr>sender = c, event = Disconnect reason, fault = f\<rparr> (run [] es)))
          = run [] es
        \<and> emits (outbox (final
            (dispatch \<lparr>sender = c, event = Disconnect reason, fault = f\<rparr> (run [] es)))) = [])
   \<and> recipients conns (ToOthers c) = conns - {c}
   \<and> recipients conns ToAll = conns"
proof -
  have d: "distinct (map fst (run [] es))"
    by (rule run_distinct) simp
  have joined: "dispatch \<lparr>sender = c, event = Disconnect reason, fault = []\<rparr> (run [] es)
        = Returned \<lparr>users = AList.delete c (run [] es),
            outbox = [Log (LogDisconnected (name u) c reason),
                      Emit (ToOthers c) (SystemMessage LeaveKind (name u)),
                      Emit ToAll (OnlineCount (length (AList.delete c (run [] es))))],
            fuse = []\<rparr>"
    if "map_of (run [] es) c = Some u"
  proof -
    from that have "(c, u) \<in> set (run [] es)" by (rule map_of_SomeD)
    from run_entries [OF this] have "name u \<noteq> []" by (auto dest: joins_as_nonempty)
    with that show ?thesis by (simp add: handler_defs)
  qed
  have gone: "map_of (AList.delete c (run [] es)) c = None"
    by (simp add: AList.delete_conv')
  have unjoined: "users (final (dispatch \<lparr>sender = c, event = Disconnect reason, fault = f\<rparr> (run [] es)))
          = run [] es
        \<and> emits (outbox (final
            (dispatch \<lparr>sender = c, event = Disconnect reason, fault = f\<rparr> (run [] es)))) = []"
    if "map_of (run [] es) c = None"
  proof -
    from that have "c \<notin> fst ` set (run [] es)" by (simp add: map_of_eq_None_iff)
    then have "AList.delete c (run [] es) = run [] es" by simp
    with that show ?thesis
      by (auto simp: handler_defs split: list.splits)
  qed
  from joined gone unjoined length_delete [OF d] show ?thesis by simp
qed

theorem disconnect_notices_witness:
  "map_of (run [] [\<lparr>sender = ''A'', event = Join (JStr (js ''Ann'')), fault = []\<rparr>]) ''A''
     = Some \<lparr>name = js ''Ann''\<rparr>
   \<and> dispatch \<lparr>sender = ''A'', event = Disconnect JNull, fault = []\<rparr>
       (run [] [\<lparr>sender = ''A'', event = Join (JStr (js ''Ann'')), fault = []\<rparr>])
       = Returned \<lparr>users = [],
           outbox = [Log (LogDisconnected (js ''Ann'') ''A'' JNull),
                     Emit (ToOthers ''A'') (SystemMessage LeaveKind (js ''Ann'')),
                     Emit ToAll (OnlineCount 0)],
           fuse = []\<rparr>
   \<and> map_of (run [] [\<lparr>sender = ''A'', event = Join (JStr (js ''Ann'')), fault = []\<rparr>]) ''B''
     = None
   \<and> emits (outbox (final (dispatch \<lparr>sender = ''B'', event = Disconnect JNull, fault = []\<rparr>
       (run [] [\<lparr>sender = ''A'', event = Join (JStr (js ''Ann'')), fault = []\<rparr>])))) = []"
proof -
  have r: "run [] [\<lparr>sender = ''A'', event = Join (JStr (js ''Ann'')), fault = []\<rparr>]
      = [(''A'', \<lparr>name = js ''Ann''\<rparr>)]"
    by (simp add: handler_defs validateName_Ann)
  from disconnect_notices
      [of "[\<lparr>sender = ''A'', event = Join (JStr (js ''Ann'')), fault = []\<rparr>]"
        "''A''" "\<lparr>name = js ''Ann''\<rparr>" JNull "[]"]
    disconnect_notices
      [of "[\<lparr>sender = ''A'', event = Join (JStr (js ''Ann'')), fault = []\<rparr>]"
        "''B''" "\<lparr>name = js ''Ann''\<rparr>" JNull "[]"]
  show ?thesis unfolding r by simp
qed

text \<open>
  C4. A \<^verbatim>\<open>chat_message\<close> from a socket without a registry entry: the handler returns,
  the registry is unchanged, and all it sends is one error notice, the one asking for a
  name first, to the sending socket; nothing is broadcast. Whichever outside calls fail,
  the registry is unchanged and nothing but an error notice to the sender is emitted, at
  most one, and exactly one whenever the handler returns, as it does when at most one
  call fails.
\<close>

theorem chat_before_join:
  assumes "map_of us c = None"
  shows "dispatch \<lparr>sender = c, event = ChatMessage payload r, fault = []\<rparr> us
           = Returned \<lparr>users = us, outbox = [Emit (ToOne c) (ErrorMessage NameFirst)], fuse = []\<rparr>
       \<and> users (final (dispatch \<lparr>sender = c, event = ChatMessage payload r, fault = f\<rparr> us)) = us
       \<and> (emits (outbox (final
              (dispatch \<lparr>sender = c, event = ChatMessage payload r, fault = f\<rparr> us))) = []
            \<or> (\<exists>e. emits (outbox (final
              (dispatch \<lparr>sender = c, event = ChatMessage payload r, fault = f\<rparr> us)))
                = [(ToOne c, ErrorMessage e)]))
       \<and> (\<forall>h'. dispatch \<lparr>sender = c, event = ChatMessage payload r, fault = f\<rparr> us = Returned h'
              \<longrightarrow> (\<exists>e. emits (outbox h') = [(ToOne c, ErrorMessage e)]))
       \<and> (length (filter (\<lambda>fails. fails) f) \<le> 1 \<longrightarrow>
            (\<exists>h' e. dispatch \<lparr>sender = c, event = ChatMessage payload r, fault = f\<rparr> us
                       = Returned h'
                \<and> users h' = us \<and> emits (outbox h') = [(ToOne c, ErrorMessage e)]))
       \<and> recipients conns (ToOne c) \<subseteq> {c}"
proof -
  have a: "dispatch \<lparr>sender = c, event = ChatMessage payload r, fault = []\<rparr> us
           = Returned \<lparr>users = us, outbox = [Emit (ToOne c) (ErrorMessage NameFirst)], fuse = []\<rparr>"
    using assms by (simp add: handler_defs)
  have b: "users (final (dispatch \<lparr>sender = c, event = ChatMessage payload r, fault = f\<rparr> us)) = us"
    by (simp add: users_dispatch)
  have c: "emits (outbox (final
              (dispatch \<lparr>sender = c, event = ChatMessage payload r, fault = f\<rparr> us))) = []
            \<or> (\<exists>e. emits (outbox (final
              (dispatch \<lparr>sender = c, event = ChatMessage payload r, fault = f\<rparr> us)))
                = [(ToOne c, ErrorMessage e)])"
    using assms by (auto simp: handler_defs split: list.splits)
  have d: "\<exists>e. emits (outbox h') = [(ToOne c, ErrorMessage e)]"
    if "dispatch \<lparr>sender = c, event = ChatMessage payload r, fault = f\<rparr> us = Returned h'" for h'
    using assms that by (auto simp: handler_defs split: list.splits if_splits)
  have e: "\<exists>h' e. dispatch \<lparr>sender = c, event = ChatMessage payload r, fault = f\<rparr> us
                       = Returned h'
                \<and> users h' = us \<and> emits (outbox h') = [(ToOne c, ErrorMessage e)]"
    if "length (filter (\<lambda>fails. fails) f) \<le> 1"
    using assms that by (auto simp: handler_defs split: list.splits if_splits)
  from a b c d e show ?thesis by auto
qed

theorem chat_before_join_witness:
  "map_of ([] :: registry) ''A'' = None
   \<and> length (filter (\<lambda>fails. fails) []) \<le> 1
   \<and> dispatch \<lparr>sender = ''A'',
        event = ChatMessage (JObj [(js ''text'', JStr (js ''hi''))])
          \<lparr>now_id = 1700000000000, rnd = js ''k3x9p1'', now_ts = 1700000000000\<rparr>,
        fault = []\<rparr> []
       = Returned \<lparr>users = [], outbox = [Emit (ToOne ''A'') (ErrorMessage NameFirst)], fuse = []\<rparr>"
  using chat_before_join [of "[]" "''A''" "JObj [(js ''text'', JStr (js ''hi''))]"
      "\<lparr>now_id = 1700000000000, rnd = js ''k3x9p1'', now_ts = 1700000000000\<rparr>" "[]" "{}"]
  by simp

text \<open>
  C5. A \<^verbatim>\<open>chat_message\<close> from a socket with a registry entry. When the text is empty
  after normalisation, as every text of whitespace only is, the handler returns having
  sent nothing, and the registry is unchanged. When it is not empty and no outside call
  fails, the handler sends to all sockets, the sender among them, one message whose author
  is the registered name and whose text is the normalised text.
\<close>

theorem chat_drop_or_broadcast:
  assumes "map_of us c = Some u"
  shows "(sanitize (opt_text payload) 1000 = [] \<longrightarrow>
            dispatch \<lparr>sender = c, event = ChatMessage payload r, fault = f\<rparr> us
              = Returned \<lparr>users = us, outbox = [], fuse = f\<rparr>)
       \<and> (sanitize (opt_text payload) 1000 \<noteq> [] \<longrightarrow>
            dispatch \<lparr>sender = c, event = ChatMessage payload r, fault = []\<rparr> us
              = Returned \<lparr>users = us,
                   outbox = [Log (LogChat (name u) (sanitize (opt_text payload) 1000)),
                             Emit ToAll (ChatMsg \<lparr>msg_id = (now_id r, rnd r), msg_author = name u,
                                msg_text = sanitize (opt_text payload) 1000, msg_ts = now_ts r\<rparr>)],
                   fuse = []\<rparr>)
       \<and> ((\<forall>x\<in>set s. is_space x) \<longrightarrow> sanitize (opt_text (JObj [(js ''text'', JStr s)])) 1000 = [])
       \<and> recipients conns ToAll = conns"
  using assms sanitize_all_space[of s 1000] by (auto simp: handler_defs validateText_def Let_def simp del: sanitize.simps)

theorem chat_drop_or_broadcast_witness:
  "map_of [(''A'', \<lparr>name = js ''Ann''\<rparr>)] ''A'' = Some \<lparr>name = js ''Ann''\<rparr>
   \<and> sanitize (opt_text (JObj [(js ''text'', JStr (js ''   ''))])) 1000 = []
   \<and> dispatch \<lparr>sender = ''A'', event = ChatMessage (JObj [(js ''text'', JStr (js ''   ''))])
         \<lparr>now_id = 1700000000000, rnd = js ''k3x9p1'', now_ts = 1700000000001\<rparr>,
         fault = []\<rparr> [(''A'', \<lparr>name = js ''Ann''\<rparr>)]
       = Returned \<lparr>users = [(''A'', \<lparr>name = js ''Ann''\<rparr>)], outbox = [], fuse = []\<rparr>
   \<and> sanitize (opt_text (JObj [(js ''text'', JStr (js '' hi  there ''))])) 1000 = js ''hi there''
   \<and> dispatch \<lparr>sender = ''A'',
         event = ChatMessage (JObj [(js ''text'', JStr (js '' hi  there ''))])
           \<lparr>now_id = 1700000000000, rnd = js ''k3x9p1'', now_ts = 1700000000001\<rparr>,
         fault = []\<rparr> [(''A'', \<lparr>name = js ''Ann''\<rparr>)]
       = Returned \<lparr>users = [(''A'', \<lparr>name = js ''Ann''\<rparr>)],
           outbox = [Log (LogChat (js ''Ann'') (js ''hi there'')),
                     Emit ToAll (ChatMsg \<lparr>msg_id = (1700000000000, js ''k3x9p1''),
                       msg_author = js ''Ann'', msg_text = js ''hi there'',
                       msg_ts = 1700000000001\<rparr>)],
           fuse = []\<rparr>"
proof -
  have m: "map_of [(''A'', \<lparr>name = js ''Ann''\<rparr>)] ''A'' = Some \<lparr>name = js ''Ann''\<rparr>"
    by simp
  have e: "sanitize (opt_text (JObj [(js ''text'', JStr (js ''   ''))])) 1000 = []"
    by code_simp
  have t: "sanitize (opt_text (JObj [(js ''text'', JStr (js '' hi  there ''))])) 1000
      = js ''hi there''"
    by code_simp
  have n: "js ''hi there'' \<noteq> []"
    by (simp add: js_def)
  have w: "\<forall>x\<in>set (js ''   ''). is_space x"
    by (simp add: js_def is_space_def)
  from chat_drop_or_broadcast [OF m, of "JObj [(js ''text'', JStr (js ''   ''))]"
      "\<lparr>now_id = 1700000000000, rnd = js ''k3x9p1'', now_ts = 1700000000001\<rparr>" "[]"
      "js ''   ''"] w
    chat_drop_or_broadcast [OF m, of "JObj [(js ''text'', JStr (js '' hi  there ''))]"
      "\<lparr>now_id = 1700000000000, rnd = js ''k3x9p1'', now_ts = 1700000000001\<rparr>"]
    m e t n
  show ?thesis by (simp del: sanitize.simps opt_text.simps)
qed

text \<open>
  C7. A \<^verbatim>\<open>typing\<close> event from a socket without a registry entry is ignored: the handler
  returns having sent nothing. From a socket with an entry, when no outside call fails,
  it sends to all sockets, the sender among them, one \<^verbatim>\<open>typing\<close> event with the registered
  name, the truth value of the argument and the socket id; a sequence of such events yields
  one broadcast for each, in order, none merged or dropped.
\<close>

theorem typing_relay:
  shows "(map_of us c = None \<longrightarrow>
            dispatch \<lparr>sender = c, event = Typing v, fault = f\<rparr> us
              = Returned \<lparr>users = us, outbox = [], fuse = f\<rparr>)
       \<and> (map_of us c = Some u \<longrightarrow>
            dispatch \<lparr>sender = c, event = Typing v, fault = []\<rparr> us
              = Returned \<lparr>users = us, outbox = [Emit ToAll (TypingEv (name u) (truthy v) c)], fuse = []\<rparr>
            \<and> transcript us (map (\<lambda>v. \<lparr>sender = c, event = Typing v, fault = []\<rparr>) vs)
              = map (\<lambda>v. Emit ToAll (TypingEv (name u) (truthy v) c)) vs)
       \<and> recipients conns ToAll = conns"
proof -
  have step: "dispatch \<lparr>sender = c, event = Typing w, fault = []\<rparr> us
      = Returned \<lparr>users = us, outbox = [Emit ToAll (TypingEv (name u) (truthy w) c)], fuse = []\<rparr>"
    if "map_of us c = Some u" for w
    using that by (simp add: handler_defs)
  have "transcript us (map (\<lambda>v. \<lparr>sender = c, event = Typing v, fault = []\<rparr>) vs)
      = map (\<lambda>v. Emit ToAll (TypingEv (name u) (truthy v) c)) vs"
    if "map_of us c = Some u"
    using that by (induction vs) (simp_all add: step)
  then show ?thesis
    by (simp add: step) (simp add: handler_defs)
qed

theorem typing_relay_witness:
  "map_of ([] :: registry) ''A'' = None
   \<and> dispatch \<lparr>sender = ''A'', event = Typing (JBool True), fault = []\<rparr> []
       = Returned \<lparr>users = [], outbox = [], fuse = []\<rparr>
   \<and> map_of [(''A'', \<lparr>name = js ''Ann''\<rparr>)] ''A'' = Some \<lparr>name = js ''Ann''\<rparr>
   \<and> transcript [(''A'', \<lparr>name = js ''Ann''\<rparr>)]
        [\<lparr>sender = ''A'', event = Typing (JBool True), fault = []\<rparr>,
         \<lparr>sender = ''A'', event = Typing (JBool True), fault = []\<rparr>,
         \<lparr>sender = ''A'', event = Typing (JBool False), fault = []\<rparr>]
       = [Emit ToAll (TypingEv (js ''Ann'') True ''A''),
          Emit ToAll (TypingEv (js ''Ann'') True ''A''),
          Emit ToAll (TypingEv (js ''Ann'') False ''A'')]"
  using typing_relay [of "[]" "''A''" "JBool True" "[]" "\<lparr>name = js ''Ann''\<rparr>" "[]" "{}"]
    typing_relay [of "[(''A'', \<lparr>name = js ''Ann''\<rparr>)]" "''A''" "JBool True" "[]"
      "\<lparr>name = js ''Ann''\<rparr>" "[JBool True, JBool True, JBool False]" "{}"]
  by (simp del: transcript.simps)

text \<open>
  C8, as the source has it. In the handlers of \<^verbatim>\<open>join\<close> and \<^verbatim>\<open>chat_message\<close> a failure
  raised in the \<^verbatim>\<open>try\<close> block is caught at the handler's boundary. When the two calls of
  the \<^verbatim>\<open>catch\<close> block (the log line and the error notice) do not fail themselves, the
  failure is logged, the generic error notice is sent to the sender alone, after what the
  block had sent before it failed, and the handler returns. When the \<^verbatim>\<open>try\<close> block does
  not fail, the handler returns what the block returns. \<^verbatim>\<open>chat_message\<close> never changes the
  registry.
\<close>

theorem caught_failures:
  "(\<forall>h'. join_body c raw \<lparr>users = us, outbox = [], fuse = f\<rparr> = Returned h' \<longrightarrow>
        dispatch \<lparr>sender = c, event = Join raw, fault = f\<rparr> us = Returned h')
   \<and> (\<forall>h1. join_body c raw \<lparr>users = us, outbox = [], fuse = f\<rparr> = Thrown h1
          \<and> True \<notin> set (take 2 (fuse h1)) \<longrightarrow>
        dispatch \<lparr>sender = c, event = Join raw, fault = f\<rparr> us
          = Returned (h1\<lparr>outbox := outbox h1 @
                [Log LogJoinError, Emit (ToOne c) (ErrorMessage JoinFailed)],
              fuse := drop 2 (fuse h1)\<rparr>))
   \<and> (\<forall>h'. chat_body c payload r \<lparr>users = us, outbox = [], fuse = f\<rparr> = Returned h' \<longrightarrow>
        dispatch \<lparr>sender = c, event = ChatMessage payload r, fault = f\<rparr> us = Returned h')
   \<and> (\<forall>h1. chat_body c payload r \<lparr>users = us, outbox = [], fuse = f\<rparr> = Thrown h1
          \<and> True \<notin> set (take 2 (fuse h1)) \<longrightarrow>
        dispatch \<lparr>sender = c, event = ChatMessage payload r, fault = f\<rparr> us
          = Returned (h1\<lparr>outbox := outbox h1 @
                [Log LogChatError, Emit (ToOne c) (ErrorMessage SendFailed)],
              fuse := drop 2 (fuse h1)\<rparr>))
   \<and> users (final (dispatch \<lparr>sender = c, event = ChatMessage payload r, fault = f\<rparr> us)) = us"
proof -
  have caught: "statements [call (Log l), call (Emit t e)] h1
      = Returned (h1\<lparr>outbox := outbox h1 @ [Log l, Emit t e], fuse := drop 2 (fuse h1)\<rparr>)"
    if "True \<notin> set (take 2 (fuse h1))" for l t e h1
    using that by (cases "fuse h1"; cases "tl (fuse h1)") auto
  have "users (final (dispatch \<lparr>sender = c, event = ChatMessage payload r, fault = f\<rparr> us)) = us"
    by (simp add: users_dispatch)
  with caught show ?thesis
    by (simp add: dispatch_def on_join_def on_chat_message_def try_catch_def
        del: statements.simps call.simps)
qed

theorem caught_failures_witness:
  "join_body ''A'' (JStr (js ''Ann'')) \<lparr>users = [], outbox = [], fuse = [False, True]\<rparr>
     = Thrown \<lparr>users = [(''A'', \<lparr>name = js ''Ann''\<rparr>)],
         outbox = [Log (LogJoined (js ''Ann'') ''A'')], fuse = []\<rparr>
   \<and> True \<notin> set (take 2 [])
   \<and> dispatch \<lparr>sender = ''A'', event = Join (JStr (js ''Ann'')), fault = [False, True]\<rparr> []
     = Returned \<lparr>users = [(''A'', \<lparr>name = js ''Ann''\<rparr>)],
         outbox = [Log (LogJoined (js ''Ann'') ''A''), Log LogJoinError,
                   Emit (ToOne ''A'') (ErrorMessage JoinFailed)],
         fuse = []\<rparr>
   \<and> chat_body ''A'' (JObj [(js ''text'', JStr (js ''hi''))])
        \<lparr>now_id = 1700000000000, rnd = js ''k3x9p1'', now_ts = 1700000000001\<rparr>
        \<lparr>users = [(''A'', \<lparr>name = js ''Ann''\<rparr>)], outbox = [], fuse = [True]\<rparr>
     = Thrown \<lparr>users = [(''A'', \<lparr>name = js ''Ann''\<rparr>)], outbox = [], fuse = []\<rparr>
   \<and> dispatch \<lparr>sender = ''A'',
         event = ChatMessage (JObj [(js ''text'', JStr (js ''hi''))])
           \<lparr>now_id = 1700000000000, rnd = js ''k3x9p1'', now_ts = 1700000000001\<rparr>,
         fault = [True]\<rparr> [(''A'', \<lparr>name = js ''Ann''\<rparr>)]
     = Returned \<lparr>users = [(''A'', \<lparr>name = js ''Ann''\<rparr>)],
         outbox = [Log LogChatError, Emit (ToOne ''A'') (ErrorMessage SendFailed)],
         fuse = []\<rparr>
   \<and> join_body ''B'' (JStr (js ''Bob'')) \<lparr>users = [], outbox = [], fuse = []\<rparr>
     = Returned \<lparr>users = [(''B'', \<lparr>name = js ''Bob''\<rparr>)],
         outbox = [Log (LogJoined (js ''Bob'') ''B''),
                   Emit (ToOthers ''B'') (SystemMessage JoinKind (js ''Bob'')),
                   Emit (ToOne ''B'') (JoinedAck (js ''Bob'')),
                   Emit ToAll (OnlineCount 1)],
         fuse = []\<rparr>
   \<and> dispatch \<lparr>sender = ''B'', event = Join (JStr (js ''Bob'')), fault = []\<rparr> []
     = Returned \<lparr>users = [(''B'', \<lparr>name = js ''Bob''\<rparr>)],
         outbox = [Log (LogJoined (js ''Bob'') ''B''),
                   Emit (ToOthers ''B'') (SystemMessage JoinKind (js ''Bob'')),
                   Emit (ToOne ''B'') (JoinedAck (js ''Bob'')),
                   Emit ToAll (OnlineCount 1)],
         fuse = []\<rparr>"
proof -
  have b: "join_body ''A'' (JStr (js ''Ann'')) \<lparr>users = [], outbox = [], fuse = [False, True]\<rparr>
     = Thrown \<lparr>users = [(''A'', \<lparr>name = js ''Ann''\<rparr>)],
         outbox = [Log (LogJoined (js ''Ann'') ''A'')], fuse = []\<rparr>"
    by (simp add: handler_defs validateName_Ann)
  have t: "validateText (opt_text (JObj [(js ''text'', JStr (js ''hi''))])) = Some (js ''hi'')"
    by code_simp
  have c: "chat_body ''A'' (JObj [(js ''text'', JStr (js ''hi''))])
        \<lparr>now_id = 1700000000000, rnd = js ''k3x9p1'', now_ts = 1700000000001\<rparr>
        \<lparr>users = [(''A'', \<lparr>name = js ''Ann''\<rparr>)], outbox = [], fuse = [True]\<rparr>
     = Thrown \<lparr>users = [(''A'', \<lparr>name = js ''Ann''\<rparr>)], outbox = [], fuse = []\<rparr>"
    unfolding chat_body_def t by simp
  have d: "join_body ''B'' (JStr (js ''Bob'')) \<lparr>users = [], outbox = [], fuse = []\<rparr>
     = Returned \<lparr>users = [(''B'', \<lparr>name = js ''Bob''\<rparr>)],
         outbox = [Log (LogJoined (js ''Bob'') ''B''),
                   Emit (ToOthers ''B'') (SystemMessage JoinKind (js ''Bob'')),
                   Emit (ToOne ''B'') (JoinedAck (js ''Bob'')),
                   Emit ToAll (OnlineCount 1)],
         fuse = []\<rparr>"
    by (simp add: handler_defs validateName_Bob)
  from caught_failures [of "''A''" "JStr (js ''Ann'')" "[]" "[False, True]"]
    caught_failures [of "''A''" _ "[(''A'', \<lparr>name = js ''Ann''\<rparr>)]" "[True]"
      "JObj [(js ''text'', JStr (js ''hi''))]"
      "\<lparr>now_id = 1700000000000, rnd = js ''k3x9p1'', now_ts = 1700000000001\<rparr>"]
    caught_failures [of "''B''" "JStr (js ''Bob'')" "[]" "[]"] b c d
  show ?thesis by simp
qed

text \<open>
  C8, as stated, fails. The handlers of \<^verbatim>\<open>typing\<close> and \<^verbatim>\<open>disconnect\<close> have no \<^verbatim>\<open>try\<close>:
  when their first outside call fails, the exception leaves the handler, nothing is logged
  and no error notice is sent. And in \<^verbatim>\<open>join\<close> the calls of the \<^verbatim>\<open>catch\<close> block are
  not guarded: when logging fails in the \<^verbatim>\<open>try\<close> block and again in the \<^verbatim>\<open>catch\<close>
  block, the exception leaves that handler too, unlogged and unreported.
\<close>

theorem uncaught_failure_counterexample:
  "dispatch \<lparr>sender = ''A'', event = Typing (JBool True), fault = [True]\<rparr>
      [(''A'', \<lparr>name = js ''Ann''\<rparr>)]
     = Thrown \<lparr>users = [(''A'', \<lparr>name = js ''Ann''\<rparr>)], outbox = [], fuse = []\<rparr>
   \<and> dispatch \<lparr>sender = ''A'', event = Disconnect (JStr (js ''transport close'')), fault = [True]\<rparr>
      [(''A'', \<lparr>name = js ''Ann''\<rparr>)]
     = Thrown \<lparr>users = [], outbox = [], fuse = []\<rparr>
   \<and> dispatch \<lparr>sender = ''A'', event = Join (JStr (js ''Ann'')), fault = [True, True]\<rparr> []
     = Thrown \<lparr>users = [(''A'', \<lparr>name = js ''Ann''\<rparr>)], outbox = [], fuse = []\<rparr>"
  by (simp add: handler_defs validateName_Ann)

text \<open>
  C9. After any sequence of events, with or without failing outside calls: an error notice
  sent by the next handler is sent with \<^verbatim>\<open>socket.emit\<close> on the socket whose event is
  being handled, so that no other socket receives it; and every error notice in the whole
  transcript of a sequence went to the sender of one of its events alone.
\<close>

theorem error_notices_to_one:
  "(Emit t (ErrorMessage e) \<in> set (outbox (final (dispatch i (run [] es)))) \<longrightarrow>
      t = ToOne (sender i) \<and> recipients conns t \<subseteq> {sender i})
   \<and> (Emit t (ErrorMessage e) \<in> set (transcript [] es) \<longrightarrow>
        (\<exists>j\<in>set es. t = ToOne (sender j) \<and> recipients conns t \<subseteq> {sender j}))"
proof -
  have "\<exists>j\<in>set es. t = ToOne (sender j)"
    if "Emit t (ErrorMessage e) \<in> set (transcript us es)" for us
    using that
  proof (induction es arbitrary: us)
    case Nil
    then show ?case by simp
  next
    case (Cons i es)
    then show ?case by (auto simp: Let_def dest: error_dispatch)
  qed
  from this [of "[]"] show ?thesis by (fastforce dest: error_dispatch)
qed

theorem error_notices_to_one_witness:
  "Emit (ToOne ''B'') (ErrorMessage BadName) \<in> set (outbox (final
      (dispatch \<lparr>sender = ''B'', event = Join (JNum 5), fault = []\<rparr>
        (run [] [\<lparr>sender = ''A'', event = Typing JNull, fault = []\<rparr>]))))
   \<and> recipients {''A'', ''B''} (ToOne ''B'') \<subseteq> {''B''}
   \<and> Emit (ToOne ''B'') (ErrorMessage BadName) \<in> set (transcript []
        [\<lparr>sender = ''B'', event = Join (JNum 5), fault = []\<rparr>])"
proof -
  have v: "validateName (JNum 5) = None"
    by (simp add: validateName_def)
  have a: "Emit (ToOne ''B'') (ErrorMessage BadName) \<in> set (outbox (final
      (dispatch \<lparr>sender = ''B'', event = Join (JNum 5), fault = []\<rparr>
        (run [] [\<lparr>sender = ''A'', event = Typing JNull, fault = []\<rparr>]))))"
    by (simp add: handler_defs v)
  have b: "Emit (ToOne ''B'') (ErrorMessage BadName) \<in> set (transcript []
        [\<lparr>sender = ''B'', event = Join (JNum 5), fault = []\<rparr>])"
    by (simp add: handler_defs v)
  from error_notices_to_one [of "ToOne ''B''" BadName
      "\<lparr>sender = ''B'', event = Join (JNum 5), fault = []\<rparr>"
      "[\<lparr>sender = ''A'', event = Typing JNull, fault = []\<rparr>]" "{''A'', ''B''}"] a b
  show ?thesis by simp
qed

text \<open>
  C10. A \<^verbatim>\<open>chat_message\<close> from a socket with a registry entry whose payload is not an
  object with a string in its field \<^verbatim>\<open>text\<close>: whichever outside call would fail, the
  handler returns having called none, the registry and the fuse are as they were, and the
  outcome is the one of an empty text.
\<close>

theorem chat_bad_payload:
  assumes "map_of us c = Some u" and "\<not> has_string_text payload"
  shows "dispatch \<lparr>sender = c, event = ChatMessage payload r, fault = f\<rparr> us
           = Returned \<lparr>users = us, outbox = [], fuse = f\<rparr>
       \<and> dispatch \<lparr>sender = c, event = ChatMessage payload r, fault = f\<rparr> us
           = dispatch \<lparr>sender = c, event = ChatMessage (JObj [(js ''text'', JStr [])]) r, fault = f\<rparr> us"
  using assms sanitize_no_string [OF assms(2), of 1000]
  by (simp add: handler_defs validateText_def trim_def)

theorem chat_bad_payload_witness:
  "map_of [(''A'', \<lparr>name = js ''Ann''\<rparr>)] ''A'' = Some \<lparr>name = js ''Ann''\<rparr>
   \<and> \<not> has_string_text (JNum 5)
   \<and> dispatch \<lparr>sender = ''A'',
         event = ChatMessage (JNum 5)
           \<lparr>now_id = 1700000000000, rnd = js ''k3x9p1'', now_ts = 1700000000001\<rparr>,
         fault = [True]\<rparr> [(''A'', \<lparr>name = js ''Ann''\<rparr>)]
       = Returned \<lparr>users = [(''A'', \<lparr>name = js ''Ann''\<rparr>)], outbox = [], fuse = [True]\<rparr>"
proof -
  have m: "map_of [(''A'', \<lparr>name = js ''Ann''\<rparr>)] ''A'' = Some \<lparr>name = js ''Ann''\<rparr>"
    by simp
  have p: "\<not> has_string_text (JNum 5)"
    by simp
  from chat_bad_payload [OF m p,
      of "\<lparr>now_id = 1700000000000, rnd = js ''k3x9p1'', now_ts = 1700000000001\<rparr>" "[True]"] m p
  show ?thesis by simp
qed

end
